theory Spec2Isabelle
  imports Main
begin

section \<open>Data model of the visitor tracker (app.py, lines 27-68)\<close>

text \<open>
  A Python dictionary with string keys, as \<open>json.load\<close> builds it and \<open>json.dump\<close>
  writes it: the items in insertion order. \<open>dict_set d k v\<close> is \<open>d[k] = v\<close>: an existing
  key keeps its place, a new key goes last. \<open>map_of d k\<close> is the lookup \<open>d[k]\<close>, and
  \<open>map_of d k = None\<close> is \<open>k not in d\<close>.
\<close>

type_synonym 'v dict = "(string \<times> 'v) list"

fun dict_set :: "'v dict \<Rightarrow> string \<Rightarrow> 'v \<Rightarrow> 'v dict" where
  "dict_set [] k v = [(k, v)]"
| "dict_set ((k', v') # d) k v =
     (if k' = k then (k, v) # d else (k', v') # dict_set d k v)"

text \<open>
  The document of \<open>visitor_data.json\<close>: the three fields the code reads and writes.
  \<open>sessions\<close> is a JSON list, so a Python list.
\<close>

record visitor_data =
  total_count :: int
  daily_counts :: "int dict"
  sessions :: "string list"

text \<open>The literal of lines 41 and 43.\<close>

definition empty_visitor_data :: visitor_data where
  "empty_visitor_data = \<lparr>total_count = 0, daily_counts = [], sessions = []\<rparr>"

text \<open>
  What \<open>json.load\<close> does on a file that exists: it returns the document, or raises
  \<open>json.JSONDecodeError\<close> on text that is not JSON, or raises \<open>UnicodeDecodeError\<close>
  on bytes that are not text (the file is opened in text mode). Only documents of the
  shape above are modelled; \<open>json.dump\<close> followed by \<open>json.load\<close> gives the document
  back. JSON of another shape (a list, an object without the three fields) is loaded by
  \<open>json.load\<close> as well and fails later, at the subscripts of lines 54-68; such files
  are outside this model, and no statement below is about them.
\<close>

datatype py_error = JSONDecodeError | UnicodeDecodeError

datatype file_content = Document visitor_data | Malformed | Undecodable

fun json_load :: "file_content \<Rightarrow> py_error + visitor_data" where
  "json_load (Document v) = Inr v"
| "json_load Malformed = Inl JSONDecodeError"
| "json_load Undecodable = Inl UnicodeDecodeError"

text \<open>
  The working directory: \<open>visitor_file\<close> is \<open>VISITOR_DATA_FILE\<close> (\<open>None\<close> when
  \<open>os.path.exists\<close> is false), and \<open>dumps\<close> lists every \<open>json.dump\<close> into it so far,
  oldest first, so that a call that writes nothing is told from one that writes the
  same document again.
\<close>

record disk =
  visitor_file :: "file_content option"
  dumps :: "visitor_data list"

text \<open>The slots of \<open>st.session_state\<close> that the code uses, each absent until set.\<close>

record session_state =
  session_id :: "string option"
  transformed_images :: "string list option"
  all_images :: "string list option"

text \<open>
  What one call reads from its environment: \<open>datetime.now().strftime("%Y-%m-%d")\<close>
  and the string \<open>uuid.uuid4()\<close> would give.
\<close>

record env =
  today :: string
  uuid4 :: string

section \<open>track_visitor\<close>

text \<open>Lines 36-43: the document to work on.\<close>

definition load_visitor_data :: "file_content option \<Rightarrow> py_error + visitor_data" where
  "load_visitor_data f =
     (case f of
        None \<Rightarrow> Inr empty_visitor_data
      | Some c \<Rightarrow>
          (case json_load c of
             Inl e \<Rightarrow> if e = JSONDecodeError then Inr empty_visitor_data else Inl e
           | Inr v \<Rightarrow> Inr v))"

text \<open>Lines 46-50: the session identifier of the caller, generated when it has none.\<close>

definition ensure_session :: "env \<Rightarrow> session_state \<Rightarrow> session_state" where
  "ensure_session e ss =
     (case session_id ss of
        None \<Rightarrow> ss\<lparr>session_id := Some (uuid4 e)\<rparr>
      | Some s \<Rightarrow> ss)"

definition current_session :: "env \<Rightarrow> session_state \<Rightarrow> string" where
  "current_session e ss = (case session_id ss of None \<Rightarrow> uuid4 e | Some s \<Rightarrow> s)"

text \<open>Lines 59-62: the count of one day.\<close>

definition bump_daily :: "int dict \<Rightarrow> string \<Rightarrow> int dict" where
  "bump_daily dc day =
     (case map_of dc day of
        Some c \<Rightarrow> dict_set dc day (c + 1)
      | None \<Rightarrow> dict_set dc day 1)"

text \<open>
  The whole function: the value returned, the disk and the session state after the call,
  or the exception that leaves it.
\<close>

definition track_visitor ::
  "env \<Rightarrow> disk \<Rightarrow> session_state \<Rightarrow> py_error + (int \<times> disk \<times> session_state)" where
  "track_visitor e d ss =
     (case load_visitor_data (visitor_file d) of
        Inl err \<Rightarrow> Inl err
      | Inr vd \<Rightarrow>
          (let ss' = ensure_session e ss;
               sid = current_session e ss
           in if sid \<notin> set (sessions vd) then
                (let vd1 = vd\<lparr>sessions := sessions vd @ [sid]\<rparr>;
                     vd2 = vd1\<lparr>total_count := total_count vd1 + 1\<rparr>;
                     vd3 = vd2\<lparr>daily_counts := bump_daily (daily_counts vd2) (today e)\<rparr>
                 in Inr (total_count vd3,
                         d\<lparr>visitor_file := Some (Document vd3), dumps := dumps d @ [vd3]\<rparr>,
                         ss'))
              else Inr (total_count vd, d, ss')))"

text \<open>
  Calls one after another on the same disk, each by a client with its own environment
  and session state. A call that raises has written nothing.
\<close>

fun track_visitors :: "disk \<Rightarrow> (env \<times> session_state) list \<Rightarrow> disk" where
  "track_visitors d [] = d"
| "track_visitors d (c # cs) =
     (case track_visitor (fst c) d (snd c) of
        Inl err \<Rightarrow> track_visitors d cs
      | Inr r \<Rightarrow> track_visitors (fst (snd r)) cs)"

text \<open>The invariant of the data model, on a document and on the disk that holds it.\<close>

definition visitor_inv :: "visitor_data \<Rightarrow> bool" where
  "visitor_inv v =
     (total_count v = sum_list (map snd (daily_counts v)) \<and>
      sum_list (map snd (daily_counts v)) = int (card (set (sessions v))))"

definition disk_inv :: "disk \<Rightarrow> bool" where
  "disk_inv d =
     (case load_visitor_data (visitor_file d) of
        Inl err \<Rightarrow> False
      | Inr v \<Rightarrow> visitor_inv v)"

section \<open>Prompt resolver (app.py, lines 95-112)\<close>

text \<open>The dictionary literal of lines 105-110, and \<open>dict.get\<close> with its default.\<close>

definition style_prompts :: "string dict" where
  "style_prompts =
     [(''Ghibli'',
       ''Transform this image into Studio Ghibli animation style with vibrant colors, whimsical elements, and a dreamy atmosphere.''),
      (''Minecraft'',
       ''Transform this image into Minecraft style with blocky pixelated texture, bright colors, and cubic shapes.''),
      (''Chicken-Jockey'',
       ''Transform this image into a blocky Minecraft-style character cool green zombie riding a chicken.''),
      (''Humanize'',
       ''Transform this image into a realistic human-like representation with natural proportions, detailed features, and lifelike textures.'')]"

definition get_prompt_for_transformation :: "string \<Rightarrow> string" where
  "get_prompt_for_transformation style_type =
     (case map_of style_prompts style_type of
        Some p \<Rightarrow> p
      | None \<Rightarrow> ''Transform this image in a creative way.'')"

section \<open>Transformation client (app.py, lines 180-214)\<close>

text \<open>
  The keyword arguments of \<open>client.images.edit\<close>, and an item of \<open>response.data\<close>.
\<close>

record edit_request =
  req_model :: string
  req_image :: string
  req_prompt :: string
  req_n :: int
  req_size :: string

record image_item =
  url :: string

text \<open>
  The external service: for the client built from an API key and a request, either the
  exception the call raises, as the text \<open>str(e)\<close>, or \<open>response.data\<close>.
\<close>

type_synonym openai = "string \<Rightarrow> edit_request \<Rightarrow> string + image_item list"

text \<open>
  What a run does that can be seen from outside, in order: the calls to the external
  service and to the image host, and the messages and the download it hands to the page
  (\<open>st.error\<close>, \<open>st.warning\<close>, \<open>st.toast\<close>, \<open>st.download_button\<close> with its \<open>data\<close>, the
  entries of the archive, and its \<open>file_name\<close>). Calls that only draw (\<open>st.image\<close>,
  \<open>st.markdown\<close>, \<open>st.write\<close>, \<open>st.progress\<close>, \<open>st.status\<close>, the gallery) and the icons
  and labels are left out.
\<close>

datatype event =
    ImagesEdit string edit_request
  | HttpGet string
  | StError string
  | StWarning string
  | StToast string
  | DownloadButton "(string \<times> string) list" string

definition transform_image_with_openai ::
  "openai \<Rightarrow> string \<Rightarrow> string \<Rightarrow> string \<Rightarrow> int \<Rightarrow> string \<Rightarrow> string list \<times> event list" where
  "transform_image_with_openai client api_key image_data style num_images image_size =
     (let prompt = get_prompt_for_transformation style;
          request = \<lparr>req_model = ''gpt-4o'', req_image = image_data, req_prompt = prompt,
                     req_n = num_images, req_size = image_size\<rparr>
      in case client api_key request of
           Inr data \<Rightarrow> (map url data, [ImagesEdit api_key request])
         | Inl e \<Rightarrow>
             ([], [ImagesEdit api_key request, StError (''Error transforming image: '' @ e)]))"

section \<open>Result packaging and the page (app.py, lines 216-320)\<close>

text \<open>\<open>str\<close> of a non-negative integer, and of an integer.\<close>

fun str_nat :: "nat \<Rightarrow> string" where
  "str_nat n =
     (if n < 10 then [''0123456789'' ! n]
      else str_nat (n div 10) @ [''0123456789'' ! (n mod 10)])"

definition str_int :: "int \<Rightarrow> string" where
  "str_int i = (if i < 0 then ''-'' @ str_nat (nat (- i)) else str_nat (nat i))"

text \<open>
  \<open>str.lower\<close> on ASCII text, which the four styles of the form are: the letters A to Z
  go to a to z and every other character stays.
\<close>

definition lower_char :: "char \<Rightarrow> char" where
  "lower_char c =
     (case map_of (zip ''ABCDEFGHIJKLMNOPQRSTUVWXYZ'' ''abcdefghijklmnopqrstuvwxyz'') c of
        Some l \<Rightarrow> l
      | None \<Rightarrow> c)"

definition lower :: "string \<Rightarrow> string" where
  "lower s = map lower_char s"

text \<open>
  A reply of \<open>requests.get\<close>, and the image host: for a URL either the exception the
  call raises, as \<open>str(e)\<close>, or the reply.
\<close>

record http_response =
  status_code :: int
  content :: string

type_synonym http = "string \<Rightarrow> string + http_response"

text \<open>Line 297: the name of the archive entry for position \<open>i\<close> of \<open>enumerate\<close>.\<close>

definition entry_name :: "string \<Rightarrow> nat \<Rightarrow> string" where
  "entry_name style i = lower style @ ''_transform_'' @ str_nat (i + 1) @ ''.png''"

text \<open>Lines 299-302: the message for a reply that is not 200.\<close>

definition fetch_failed :: "nat \<Rightarrow> int \<Rightarrow> string" where
  "fetch_failed i code =
     ''Failed to fetch image '' @ str_nat (i + 1) @ ''. Error code: '' @ str_int code"

text \<open>
  Lines 291-302, the loop that fills the archive (the packaging step), from position
  \<open>i\<close> of \<open>enumerate(all_images)\<close> on: the events of the loop, and the entries written,
  name and bytes in the order of \<open>writestr\<close>, or the exception of a \<open>requests.get\<close> that
  raised, which ends the loop.
\<close>

fun package ::
  "http \<Rightarrow> string \<Rightarrow> nat \<Rightarrow> string list \<Rightarrow> event list \<times> (string + (string \<times> string) list)" where
  "package get style i [] = ([], Inr [])"
| "package get style i (image_url # rest) =
     (case get image_url of
        Inl e \<Rightarrow> ([HttpGet image_url], Inl e)
      | Inr response \<Rightarrow>
          (let later = package get style (i + 1) rest in
           if status_code response = 200 then
             (HttpGet image_url # fst later,
              case snd later of
                Inl e \<Rightarrow> Inl e
              | Inr zipf \<Rightarrow> Inr ((entry_name style i, content response) # zipf))
           else
             (HttpGet image_url # StError (fetch_failed i (status_code response)) # fst later,
              snd later)))"

text \<open>
  \<open>main_page\<close>, lines 233-320: the events of the run and the session state after it.
  \<open>uploaded_file\<close> is \<open>None\<close> or the bytes \<open>getvalue()\<close> gives; the API key is a string,
  false when empty.
\<close>

definition main_page ::
  "openai \<Rightarrow> http \<Rightarrow> bool \<Rightarrow> string \<Rightarrow> string \<Rightarrow> int \<Rightarrow> string \<Rightarrow> string option \<Rightarrow>
     session_state \<Rightarrow> event list \<times> session_state" where
  "main_page client get submitted api_key style num_images image_size uploaded_file ss =
     (if submitted \<and> uploaded_file \<noteq> None \<and> api_key \<noteq> [] then
        (case uploaded_file of
           None \<Rightarrow> ([], ss)
         | Some image_bytes \<Rightarrow>
             (let transformed =
                    transform_image_with_openai client api_key image_bytes style num_images
                      image_size;
                  transformed_image_urls = fst transformed
              in if transformed_image_urls \<noteq> [] then
                   (let ss1 = ss\<lparr>transformed_images := Some transformed_image_urls\<rparr>;
                        images = transformed_image_urls;
                        ss2 = ss1\<lparr>all_images := Some images\<rparr>;
                        packed = package get style 0 images;
                        shown = snd transformed
                                @ [StToast (''Your '' @ style @ '' transformation is ready!'')]
                                @ fst packed
                    in case snd packed of
                         Inr zipf \<Rightarrow>
                           (shown @ [DownloadButton zipf
                                       (''aura_farm_'' @ lower style @ ''_transformations.zip'')],
                            ss2)
                       | Inl e \<Rightarrow>
                           (shown @ [StError (''Error during transformation: '' @ e)], ss2))
                 else (snd transformed, ss)))
      else if submitted \<and> uploaded_file = None then
        ([StWarning ''Please upload an image to transform.''], ss)
      else if submitted \<and> api_key = [] then
        ([StWarning ''Please provide your OpenAI API key.''], ss)
      else ([], ss))"

section \<open>Concrete inputs\<close>

text \<open>
  A store that has counted the session \<open>a\<close> on 1 May, a store with no file and one whose
  file is not JSON; a first-time caller whose generated identifier will be \<open>b\<close>, and the
  caller \<open>a\<close> coming back a day later.
\<close>

definition doc1 :: visitor_data where
  "doc1 = \<lparr>total_count = 1, daily_counts = [(''2024-05-01'', 1)], sessions = [''a'']\<rparr>"

definition disk1 :: disk where
  "disk1 = \<lparr>visitor_file = Some (Document doc1), dumps = []\<rparr>"

definition disk_missing :: disk where
  "disk_missing = \<lparr>visitor_file = None, dumps = []\<rparr>"

definition disk_malformed :: disk where
  "disk_malformed = \<lparr>visitor_file = Some Malformed, dumps = []\<rparr>"

text \<open>A store whose file holds bytes that are not text.\<close>

definition disk_undecodable :: disk where
  "disk_undecodable = \<lparr>visitor_file = Some Undecodable, dumps = []\<rparr>"

definition env1 :: env where
  "env1 = \<lparr>today = ''2024-05-01'', uuid4 = ''b''\<rparr>"

definition env2 :: env where
  "env2 = \<lparr>today = ''2024-05-02'', uuid4 = ''c''\<rparr>"

definition fresh_state :: session_state where
  "fresh_state = \<lparr>session_id = None, transformed_images = None, all_images = None\<rparr>"

definition state_a :: session_state where
  "state_a = \<lparr>session_id = Some ''a'', transformed_images = None, all_images = None\<rparr>"

text \<open>
  A service that answers the key \<open>sk-1\<close> with four images and refuses every other key;
  an image host on which the second of three images is gone, and which cannot be reached
  for any other URL; and a host on which every image is gone.
\<close>

definition client1 :: openai where
  "client1 key request =
     (if key = ''sk-1'' then
        Inr [\<lparr>url = ''u1''\<rparr>, \<lparr>url = ''u2''\<rparr>, \<lparr>url = ''u3''\<rparr>, \<lparr>url = ''u4''\<rparr>]
      else Inl ''Incorrect API key provided'')"

definition reply1 :: "string \<Rightarrow> http_response" where
  "reply1 u =
     (if u = ''u2'' then \<lparr>status_code = 404, content = ''Not Found''\<rparr>
      else \<lparr>status_code = 200, content = ''png of '' @ u\<rparr>)"

definition host1 :: http where
  "host1 u =
     (if u = ''u1'' \<or> u = ''u2'' \<or> u = ''u3'' then Inr (reply1 u)
      else Inl ''Connection refused'')"



section \<open>Helper lemmas\<close>

lemma map_of_dict_set:
  "map_of (dict_set d k v) k' = (if k' = k then Some v else map_of d k')"
  by (induction d k v rule: dict_set.induct) auto

lemma sum_dict_set_new:
  "map_of d k = None \<Longrightarrow> sum_list (map snd (dict_set d k v)) = sum_list (map snd d) + (v::int)"
  by (induction d k v rule: dict_set.induct) (auto split: if_splits)

lemma sum_dict_set_old:
  "map_of d k = Some c \<Longrightarrow>
     sum_list (map snd (dict_set d k v)) = sum_list (map snd d) - c + (v::int)"
  by (induction d k v rule: dict_set.induct) (auto split: if_splits)

lemma sum_bump_daily:
  "sum_list (map snd (bump_daily dc day)) = sum_list (map snd dc) + 1"
  by (auto simp: bump_daily_def sum_dict_set_new sum_dict_set_old split: option.splits)

lemma map_of_bump_daily:
  "map_of (bump_daily dc day) k =
     (if k = day then Some (case map_of dc day of None \<Rightarrow> 1 | Some c \<Rightarrow> c + 1)
      else map_of dc k)"
  by (auto simp: bump_daily_def map_of_dict_set split: option.splits)

lemma keys_dict_set:
  "fst ` set (dict_set d k v) = insert k (fst ` set d)"
  by (induction d k v rule: dict_set.induct) auto

lemma distinct_dict_set:
  "distinct (map fst d) \<Longrightarrow> distinct (map fst (dict_set d k v))"
  by (induction d k v rule: dict_set.induct) (auto simp: keys_dict_set)

lemma distinct_bump_daily:
  "distinct (map fst dc) \<Longrightarrow> distinct (map fst (bump_daily dc day))"
  by (simp add: bump_daily_def distinct_dict_set split: option.splits)

lemma ensure_session_eq:
  "ensure_session e ss = ss\<lparr>session_id := Some (current_session e ss)\<rparr>"
  by (simp add: ensure_session_def current_session_def split: option.splits)

lemma track_visitor_old:
  assumes "load_visitor_data (visitor_file d) = Inr v"
    and "current_session e ss \<in> set (sessions v)"
  shows "track_visitor e d ss =
           Inr (total_count v, d, ss\<lparr>session_id := Some (current_session e ss)\<rparr>)"
  using assms by (simp add: track_visitor_def Let_def ensure_session_eq)

lemma track_visitor_new:
  assumes "load_visitor_data (visitor_file d) = Inr v"
    and "current_session e ss \<notin> set (sessions v)"
  shows "track_visitor e d ss =
           Inr (total_count v + 1,
                d\<lparr>visitor_file := Some (Document
                      (v\<lparr>sessions := sessions v @ [current_session e ss],
                         total_count := total_count v + 1,
                         daily_counts := bump_daily (daily_counts v) (today e)\<rparr>)),
                   dumps := dumps d @
                     [v\<lparr>sessions := sessions v @ [current_session e ss],
                        total_count := total_count v + 1,
                        daily_counts := bump_daily (daily_counts v) (today e)\<rparr>]\<rparr>,
                ss\<lparr>session_id := Some (current_session e ss)\<rparr>)"
  using assms by (simp add: track_visitor_def Let_def ensure_session_eq)

lemma load_document: "load_visitor_data (Some (Document v)) = Inr v"
  by (simp add: load_visitor_data_def)

lemma load_empty_cases:
  "f = None \<or> f = Some Malformed \<Longrightarrow> load_visitor_data f = Inr empty_visitor_data"
  by (auto simp: load_visitor_data_def)

lemma visitor_inv_empty: "visitor_inv empty_visitor_data"
  by (simp add: visitor_inv_def empty_visitor_data_def)

lemma visitor_inv_new:
  assumes "visitor_inv v" and "sid \<notin> set (sessions v)"
  shows "visitor_inv (v\<lparr>sessions := sessions v @ [sid], total_count := total_count v + 1,
                         daily_counts := bump_daily (daily_counts v) day\<rparr>)"
  using assms by (simp add: visitor_inv_def sum_bump_daily)

lemma track_visitor_step:
  assumes "load_visitor_data (visitor_file d) = Inr v"
  shows "\<exists>n d' ss' v'. track_visitor e d ss = Inr (n, d', ss')
           \<and> load_visitor_data (visitor_file d') = Inr v'
           \<and> set (sessions v) \<subseteq> set (sessions v')
           \<and> (visitor_inv v \<longrightarrow> visitor_inv v')
           \<and> (distinct (sessions v) \<longrightarrow> distinct (sessions v'))"
proof (cases "current_session e ss \<in> set (sessions v)")
  case True
  show ?thesis
    using assms by (auto simp: track_visitor_old [OF assms True])
next
  case False
  show ?thesis
    using False by (auto simp: track_visitor_new [OF assms False] load_document visitor_inv_new)
qed

lemma track_visitors_load:
  assumes "load_visitor_data (visitor_file d) = Inr v"
  shows "\<exists>v'. load_visitor_data (visitor_file (track_visitors d cs)) = Inr v'
           \<and> set (sessions v) \<subseteq> set (sessions v')
           \<and> (visitor_inv v \<longrightarrow> visitor_inv v')
           \<and> (distinct (sessions v) \<longrightarrow> distinct (sessions v'))"
  using assms
proof (induction cs arbitrary: d v)
  case Nil
  then show ?case by simp
next
  case (Cons c cs)
  obtain n d' ss' v' where
    run: "track_visitor (fst c) d (snd c) = Inr (n, d', ss')"
    and ld: "load_visitor_data (visitor_file d') = Inr v'"
    and sub: "set (sessions v) \<subseteq> set (sessions v')"
    and inv: "visitor_inv v \<longrightarrow> visitor_inv v'"
    and dis: "distinct (sessions v) \<longrightarrow> distinct (sessions v')"
    using track_visitor_step [OF Cons.prems, of "fst c" "snd c"] by blast
  obtain v'' where
    "load_visitor_data (visitor_file (track_visitors d' cs)) = Inr v''"
    "set (sessions v') \<subseteq> set (sessions v'')"
    "visitor_inv v' \<longrightarrow> visitor_inv v''"
    "distinct (sessions v') \<longrightarrow> distinct (sessions v'')"
    using Cons.IH [OF ld] by blast
  then show ?case
    using run sub inv dis by auto
qed

lemma track_visitor_result:
  assumes "track_visitor e d ss = Inr (n, d', ss')"
  shows "\<exists>v'. load_visitor_data (visitor_file d') = Inr v'
           \<and> n = total_count v'
           \<and> session_id ss' = Some (current_session e ss)
           \<and> current_session e ss \<in> set (sessions v')"
proof (cases "load_visitor_data (visitor_file d)")
  case (Inl err)
  with assms show ?thesis by (simp add: track_visitor_def)
next
  case (Inr v)
  show ?thesis
  proof (cases "current_session e ss \<in> set (sessions v)")
    case True
    with assms Inr show ?thesis by (auto simp: track_visitor_old [OF Inr True])
  next
    case False
    with assms show ?thesis by (auto simp: track_visitor_new [OF Inr False] load_document)
  qed
qed

lemma current_session_known:
  "session_id ss = Some s \<Longrightarrow> current_session e ss = s \<and> ss\<lparr>session_id := Some s\<rparr> = ss"
  by (simp add: current_session_def)

text \<open>
  The handler of line 40 names \<open>json.JSONDecodeError\<close> only: a file whose bytes are not
  text leaves the call by \<open>UnicodeDecodeError\<close>, before anything is written.
\<close>

lemma track_visitor_undecodable:
  "visitor_file d = Some Undecodable \<Longrightarrow> track_visitor e d ss = Inl UnicodeDecodeError"
  by (simp add: track_visitor_def load_visitor_data_def)

text \<open>
  The packaging loop when every \<open>requests.get\<close> returns a reply: what it shows and what it
  writes, by position.
\<close>

lemma package_replies:
  assumes "\<forall>u \<in> set urls. get u = Inr (reply u)"
  shows "package get style i urls =
           (concat (map (\<lambda>(j, u). if status_code (reply u) = 200 then [HttpGet u]
                                   else [HttpGet u, StError (fetch_failed j (status_code (reply u)))])
                      (enumerate i urls)),
            Inr (map (\<lambda>(j, u). (entry_name style j, content (reply u)))
                   (filter (\<lambda>(j, u). status_code (reply u) = 200) (enumerate i urls))))"
  using assms
proof (induction urls arbitrary: i)
  case Nil
  show ?case by simp
next
  case (Cons u urls)
  have here: "get u = Inr (reply u)" and later: "\<forall>u \<in> set urls. get u = Inr (reply u)"
    using Cons.prems by simp_all
  show ?case
    by (simp add: here Cons.IH [OF later] Let_def)
qed


text \<open>
  Every run of \<open>transform_image_with_openai\<close> starts with the call to the service, so a
  run of the page with no \<open>ImagesEdit\<close> event has not entered it; a submission with an
  image and a key does enter it.
\<close>

lemma transform_calls_service:
  "\<exists>request rest. snd (transform_image_with_openai client api_key image_data style num_images
                          image_size) = ImagesEdit api_key request # rest"
  by (simp add: transform_image_with_openai_def Let_def split: sum.splits)

lemma main_page_pipeline_calls_service:
  assumes "submitted" and "uploaded_file = Some image_bytes" and "api_key \<noteq> []"
  shows "\<exists>request rest. fst (main_page client get submitted api_key style num_images image_size
                                uploaded_file ss) = ImagesEdit api_key request # rest"
  using assms transform_calls_service [of client api_key image_bytes style num_images image_size]
  by (auto simp: main_page_def Let_def split: sum.splits)

section \<open>Claims about track_visitor\<close>

text \<open>
  C1. Whatever document the call loads, when the caller's session identifier is not in
  its \<open>sessions\<close>, the call appends the identifier to \<open>sessions\<close>, adds one to
  \<open>total_count\<close>, sets today's entry of \<open>daily_counts\<close> to one more than it was (to 1
  when there was none) and leaves the other days alone, writes the whole updated
  document to the file with one \<open>json.dump\<close>, and returns the new \<open>total_count\<close>.
\<close>

theorem track_visitor_new_session:
  assumes "load_visitor_data (visitor_file d) = Inr v"
    and "current_session e ss \<notin> set (sessions v)"
  shows "\<exists>v'. track_visitor e d ss =
            Inr (total_count v + 1,
                 \<lparr>visitor_file = Some (Document v'), dumps = dumps d @ [v']\<rparr>,
                 ss\<lparr>session_id := Some (current_session e ss)\<rparr>)
          \<and> sessions v' = sessions v @ [current_session e ss]
          \<and> total_count v' = total_count v + 1
          \<and> map_of (daily_counts v') (today e) =
                Some (case map_of (daily_counts v) (today e) of None \<Rightarrow> 1 | Some c \<Rightarrow> c + 1)
          \<and> (\<forall>k. k \<noteq> today e \<longrightarrow> map_of (daily_counts v') k = map_of (daily_counts v) k)"
proof -
  let ?sid = "current_session e ss"
  let ?v' = "v\<lparr>sessions := sessions v @ [?sid], total_count := total_count v + 1,
                daily_counts := bump_daily (daily_counts v) (today e)\<rparr>"
  have disk: "d\<lparr>visitor_file := Some (Document ?v'), dumps := dumps d @ [?v']\<rparr> =
                \<lparr>visitor_file = Some (Document ?v'), dumps = dumps d @ [?v']\<rparr>"
    by (cases d) simp
  have run: "track_visitor e d ss =
               Inr (total_count v + 1,
                    \<lparr>visitor_file = Some (Document ?v'), dumps = dumps d @ [?v']\<rparr>,
                    ss\<lparr>session_id := Some ?sid\<rparr>)"
    using assms disk by (simp add: track_visitor_def Let_def ensure_session_eq)
  show ?thesis
    by (rule exI [of _ ?v']) (simp add: run map_of_bump_daily)
qed

theorem track_visitor_new_session_witness:
  "load_visitor_data (visitor_file disk1) = Inr doc1
   \<and> current_session env1 fresh_state \<notin> set (sessions doc1)
   \<and> (\<exists>v'. track_visitor env1 disk1 fresh_state =
            Inr (2, \<lparr>visitor_file = Some (Document v'), dumps = [v']\<rparr>,
                 \<lparr>session_id = Some ''b'', transformed_images = None, all_images = None\<rparr>)
          \<and> sessions v' = [''a'', ''b'']
          \<and> total_count v' = 2
          \<and> map_of (daily_counts v') ''2024-05-01'' = Some 2)"
proof -
  have h1: "load_visitor_data (visitor_file disk1) = Inr doc1"
    by (simp add: load_visitor_data_def disk1_def)
  have h2: "current_session env1 fresh_state \<notin> set (sessions doc1)"
    by (simp add: current_session_def env1_def fresh_state_def doc1_def)
  show ?thesis
    using h1 h2 track_visitor_new_session [OF h1 h2]
    by (auto simp: current_session_def env1_def fresh_state_def doc1_def disk1_def)
qed

text \<open>
  C2. The invariant (\<open>total_count\<close> is the sum of the values of \<open>daily_counts\<close>, which is
  the number of distinct identifiers in \<open>sessions\<close>) holds of the stored document after
  any sequence of calls, by any callers on any days, that starts from a store whose
  document satisfies it; a store with no file or with a file that is not JSON is such a
  start, since the call works on the empty document there.
\<close>

theorem track_visitors_invariant:
  "(disk_inv d \<longrightarrow> disk_inv (track_visitors d cs))
   \<and> (visitor_file d = None \<or> visitor_file d = Some Malformed \<longrightarrow> disk_inv d)"
proof
  show "disk_inv d \<longrightarrow> disk_inv (track_visitors d cs)"
  proof
    assume "disk_inv d"
    then obtain v where ld: "load_visitor_data (visitor_file d) = Inr v" and inv: "visitor_inv v"
      by (auto simp: disk_inv_def split: sum.splits)
    from track_visitors_load [OF ld, of cs] inv
    show "disk_inv (track_visitors d cs)"
      by (auto simp: disk_inv_def)
  qed
next
  show "visitor_file d = None \<or> visitor_file d = Some Malformed \<longrightarrow> disk_inv d"
    by (auto simp: disk_inv_def load_empty_cases visitor_inv_empty)
qed

theorem track_visitors_invariant_witness:
  "visitor_file disk_missing = None
   \<and> disk_inv disk_missing
   \<and> disk_inv (track_visitors disk_missing
         [(env1, fresh_state), (env1, state_a), (env2, fresh_state), (env2, state_a)])"
  using track_visitors_invariant
    [of disk_missing "[(env1, fresh_state), (env1, state_a), (env2, fresh_state), (env2, state_a)]"]
  by (simp add: disk_missing_def)

text \<open>
  C3. When the caller's session identifier is already in \<open>sessions\<close> of the loaded
  document, the call returns \<open>total_count\<close> and leaves the disk as it was: the file and
  the list of dumps are the same, so nothing was written and nothing counted. And after
  any call that returned, a second call by the same caller (with the session state the
  first one left) returns the same count and changes nothing on the disk; this stays so
  when calls by other callers come in between.
\<close>

theorem track_visitor_repeat_session:
  "(\<forall>v. load_visitor_data (visitor_file d) = Inr v \<and> current_session e ss \<in> set (sessions v) \<longrightarrow>
        track_visitor e d ss =
          Inr (total_count v, d, ss\<lparr>session_id := Some (current_session e ss)\<rparr>))
   \<and> (\<forall>n d' ss'. track_visitor e d ss = Inr (n, d', ss') \<longrightarrow>
        (\<forall>e2. track_visitor e2 d' ss' = Inr (n, d', ss'))
        \<and> (\<forall>e2 cs. \<exists>n2. track_visitor e2 (track_visitors d' cs) ss' =
                           Inr (n2, track_visitors d' cs, ss')))"
proof (intro conjI allI impI)
  fix v
  assume "load_visitor_data (visitor_file d) = Inr v \<and> current_session e ss \<in> set (sessions v)"
  then show "track_visitor e d ss =
               Inr (total_count v, d, ss\<lparr>session_id := Some (current_session e ss)\<rparr>)"
    by (simp add: track_visitor_old)
next
  fix n d' ss' e2
  assume run: "track_visitor e d ss = Inr (n, d', ss')"
  obtain v' where ld: "load_visitor_data (visitor_file d') = Inr v'"
    and n: "n = total_count v'"
    and sid: "session_id ss' = Some (current_session e ss)"
    and mem: "current_session e ss \<in> set (sessions v')"
    using track_visitor_result [OF run] by blast
  have same: "current_session e2 ss' = current_session e ss"
    "ss'\<lparr>session_id := Some (current_session e ss)\<rparr> = ss'"
    using current_session_known [OF sid] by simp_all
  show "track_visitor e2 d' ss' = Inr (n, d', ss')"
    using track_visitor_old [OF ld, of e2 ss'] mem same n by simp
  fix cs
  obtain v'' where ld2: "load_visitor_data (visitor_file (track_visitors d' cs)) = Inr v''"
    and sub: "set (sessions v') \<subseteq> set (sessions v'')"
    using track_visitors_load [OF ld, of cs] by blast
  have "track_visitor e2 (track_visitors d' cs) ss' = Inr (total_count v'', track_visitors d' cs, ss')"
    using track_visitor_old [OF ld2, of e2 ss'] mem sub same by auto
  then show "\<exists>n2. track_visitor e2 (track_visitors d' cs) ss' = Inr (n2, track_visitors d' cs, ss')"
    by blast
qed

theorem track_visitor_repeat_session_witness:
  "load_visitor_data (visitor_file disk1) = Inr doc1
   \<and> current_session env2 state_a \<in> set (sessions doc1)
   \<and> track_visitor env2 disk1 state_a = Inr (1, disk1, state_a)
   \<and> track_visitor env1 disk1 state_a = Inr (1, disk1, state_a)"
proof -
  have h1: "load_visitor_data (visitor_file disk1) = Inr doc1"
    by (simp add: load_visitor_data_def disk1_def)
  have h2: "current_session env2 state_a \<in> set (sessions doc1)"
    by (simp add: current_session_def state_a_def doc1_def)
  have r1: "track_visitor env2 disk1 state_a = Inr (1, disk1, state_a)"
    using track_visitor_repeat_session [of disk1 env2 state_a] h1 h2
    by (simp add: current_session_def state_a_def doc1_def)
  have r2: "track_visitor env1 disk1 state_a = Inr (1, disk1, state_a)"
    using track_visitor_repeat_session [of disk1 env2 state_a] r1 by blast
  show ?thesis using h1 h2 r1 r2 by simp
qed

text \<open>
  C4. When the file does not exist, or exists and \<open>json.load\<close> raises
  \<open>JSONDecodeError\<close> on it, the call does what it does on a file holding the empty
  document (\<open>total_count\<close> 0, no days, no sessions): it returns, with the value 1, having
  written the document that counts the caller; it raises nothing.
\<close>

theorem track_visitor_missing_or_malformed:
  assumes "visitor_file d = None \<or> visitor_file d = Some Malformed"
  shows "track_visitor e d ss =
           track_visitor e (d\<lparr>visitor_file := Some (Document empty_visitor_data)\<rparr>) ss
         \<and> track_visitor e d ss =
             Inr (1,
                  d\<lparr>visitor_file := Some (Document
                        \<lparr>total_count = 1, daily_counts = [(today e, 1)],
                           sessions = [current_session e ss]\<rparr>),
                     dumps := dumps d @
                        [\<lparr>total_count = 1, daily_counts = [(today e, 1)],
                           sessions = [current_session e ss]\<rparr>]\<rparr>,
                  ss\<lparr>session_id := Some (current_session e ss)\<rparr>)"
proof -
  have ld: "load_visitor_data (visitor_file d) = Inr empty_visitor_data"
    using assms by (rule load_empty_cases)
  have new: "current_session e ss \<notin> set (sessions empty_visitor_data)"
    by (simp add: empty_visitor_data_def)
  have ld': "load_visitor_data (visitor_file (d\<lparr>visitor_file := Some (Document empty_visitor_data)\<rparr>))
               = Inr empty_visitor_data"
    by (simp add: load_document)
  have a: "track_visitor e d ss =
             Inr (1,
                  d\<lparr>visitor_file := Some (Document
                        \<lparr>total_count = 1, daily_counts = [(today e, 1)],
                           sessions = [current_session e ss]\<rparr>),
                     dumps := dumps d @
                        [\<lparr>total_count = 1, daily_counts = [(today e, 1)],
                           sessions = [current_session e ss]\<rparr>]\<rparr>,
                  ss\<lparr>session_id := Some (current_session e ss)\<rparr>)"
    using track_visitor_new [OF ld new]
    by (simp add: empty_visitor_data_def bump_daily_def)
  have b: "track_visitor e (d\<lparr>visitor_file := Some (Document empty_visitor_data)\<rparr>) ss =
             Inr (1,
                  d\<lparr>visitor_file := Some (Document
                        \<lparr>total_count = 1, daily_counts = [(today e, 1)],
                           sessions = [current_session e ss]\<rparr>),
                     dumps := dumps d @
                        [\<lparr>total_count = 1, daily_counts = [(today e, 1)],
                           sessions = [current_session e ss]\<rparr>]\<rparr>,
                  ss\<lparr>session_id := Some (current_session e ss)\<rparr>)"
    using track_visitor_new [OF ld' new]
    by (simp add: empty_visitor_data_def bump_daily_def)
  show ?thesis
    by (simp only: a b)
qed

theorem track_visitor_missing_or_malformed_witness:
  "visitor_file disk_malformed = Some Malformed
   \<and> track_visitor env1 disk_malformed fresh_state =
       Inr (1,
            \<lparr>visitor_file = Some (Document
                \<lparr>total_count = 1, daily_counts = [(''2024-05-01'', 1)], sessions = [''b'']\<rparr>),
               dumps = [\<lparr>total_count = 1, daily_counts = [(''2024-05-01'', 1)],
                          sessions = [''b'']\<rparr>]\<rparr>,
            \<lparr>session_id = Some ''b'', transformed_images = None, all_images = None\<rparr>)
   \<and> visitor_file disk_missing = None
   \<and> track_visitor env1 disk_missing fresh_state =
       Inr (1,
            \<lparr>visitor_file = Some (Document
                \<lparr>total_count = 1, daily_counts = [(''2024-05-01'', 1)], sessions = [''b'']\<rparr>),
               dumps = [\<lparr>total_count = 1, daily_counts = [(''2024-05-01'', 1)],
                          sessions = [''b'']\<rparr>]\<rparr>,
            \<lparr>session_id = Some ''b'', transformed_images = None, all_images = None\<rparr>)"
proof -
  have h1: "visitor_file disk_malformed = None \<or> visitor_file disk_malformed = Some Malformed"
    by (simp add: disk_malformed_def)
  have h2: "visitor_file disk_missing = None \<or> visitor_file disk_missing = Some Malformed"
    by (simp add: disk_missing_def)
  show ?thesis
    using track_visitor_missing_or_malformed [OF h1, of env1 fresh_state, THEN conjunct2]
      track_visitor_missing_or_malformed [OF h2, of env1 fresh_state, THEN conjunct2]
    by (simp add: disk_malformed_def disk_missing_def env1_def fresh_state_def
        current_session_def)
qed

text \<open>
  C4 does not hold of every file that cannot be loaded: the handler of line 40 catches
  \<open>json.JSONDecodeError\<close> and nothing else. On a file whose bytes are not text the call
  leaves by \<open>UnicodeDecodeError\<close>, where the run from the empty document returns.
\<close>

theorem track_visitor_undecodable_counterexample:
  "visitor_file disk_undecodable = Some Undecodable
   \<and> json_load Undecodable = Inl UnicodeDecodeError
   \<and> track_visitor env1 disk_undecodable fresh_state = Inl UnicodeDecodeError
   \<and> track_visitor env1 disk_undecodable fresh_state \<noteq>
       track_visitor env1 (disk_undecodable\<lparr>visitor_file := Some (Document empty_visitor_data)\<rparr>)
         fresh_state"
proof -
  have f: "visitor_file disk_undecodable = Some Undecodable"
    by (simp add: disk_undecodable_def)
  have raised: "track_visitor env1 disk_undecodable fresh_state = Inl UnicodeDecodeError"
    using f by (rule track_visitor_undecodable)
  have ld: "load_visitor_data
              (visitor_file (disk_undecodable\<lparr>visitor_file := Some (Document empty_visitor_data)\<rparr>))
            = Inr empty_visitor_data"
    by (simp add: load_document)
  have new: "current_session env1 fresh_state \<notin> set (sessions empty_visitor_data)"
    by (simp add: empty_visitor_data_def)
  have returned: "track_visitor env1
                    (disk_undecodable\<lparr>visitor_file := Some (Document empty_visitor_data)\<rparr>)
                    fresh_state \<noteq> Inl UnicodeDecodeError"
    by (simp add: track_visitor_new [OF ld new])
  show ?thesis
    using f raised returned by simp
qed

text \<open>
  C10. When \<open>sessions\<close> of the loaded document has no duplicates, the call returns and
  \<open>sessions\<close> of the document on file after it has none either, and neither has any
  document the call dumped.
\<close>

theorem track_visitor_sessions_distinct:
  assumes "load_visitor_data (visitor_file d) = Inr v" and "distinct (sessions v)"
  shows "\<exists>n d' ss'. track_visitor e d ss = Inr (n, d', ss')
           \<and> (\<exists>v'. load_visitor_data (visitor_file d') = Inr v' \<and> distinct (sessions v'))
           \<and> (\<exists>ws. dumps d' = dumps d @ ws \<and> list_all (\<lambda>w. distinct (sessions w)) ws)"
proof (cases "current_session e ss \<in> set (sessions v)")
  case True
  show ?thesis
    using assms by (auto simp: track_visitor_old [OF assms(1) True])
next
  case False
  show ?thesis
    using assms(2) False by (simp add: track_visitor_new [OF assms(1) False] load_document)
qed

theorem track_visitor_sessions_distinct_witness:
  "load_visitor_data (visitor_file disk1) = Inr doc1
   \<and> distinct (sessions doc1)
   \<and> (\<exists>n d' ss'. track_visitor env1 disk1 fresh_state = Inr (n, d', ss')
           \<and> (\<exists>v'. load_visitor_data (visitor_file d') = Inr v' \<and> distinct (sessions v'))
           \<and> (\<exists>ws. dumps d' = dumps disk1 @ ws \<and> list_all (\<lambda>w. distinct (sessions w)) ws))"
proof -
  have h1: "load_visitor_data (visitor_file disk1) = Inr doc1"
    by (simp add: load_visitor_data_def disk1_def)
  have h2: "distinct (sessions doc1)"
    by (simp add: doc1_def)
  show ?thesis
    using h1 h2 track_visitor_sessions_distinct [OF h1 h2, of env1 fresh_state] by simp
qed

section \<open>Claims about the prompt resolver and the transformation client\<close>

text \<open>
  C5. \<open>get_prompt_for_transformation\<close> is a function of its argument alone, defined on
  every string: each of Ghibli, Minecraft, Chicken-Jockey and Humanize gives its fixed
  instruction, every other string gives the generic instruction, and no result is the
  empty string.
\<close>

theorem get_prompt_for_transformation_total:
  "get_prompt_for_transformation ''Ghibli'' =
     ''Transform this image into Studio Ghibli animation style with vibrant colors, whimsical elements, and a dreamy atmosphere.''
   \<and> get_prompt_for_transformation ''Minecraft'' =
     ''Transform this image into Minecraft style with blocky pixelated texture, bright colors, and cubic shapes.''
   \<and> get_prompt_for_transformation ''Chicken-Jockey'' =
     ''Transform this image into a blocky Minecraft-style character cool green zombie riding a chicken.''
   \<and> get_prompt_for_transformation ''Humanize'' =
     ''Transform this image into a realistic human-like representation with natural proportions, detailed features, and lifelike textures.''
   \<and> (\<forall>s. s \<notin> {''Ghibli'', ''Minecraft'', ''Chicken-Jockey'', ''Humanize''} \<longrightarrow>
          get_prompt_for_transformation s = ''Transform this image in a creative way.'')
   \<and> (\<forall>s. get_prompt_for_transformation s \<noteq> [])"
proof -
  have known: "map_of style_prompts s = None \<longleftrightarrow>
                 s \<notin> {''Ghibli'', ''Minecraft'', ''Chicken-Jockey'', ''Humanize''}" for s
    by (auto simp: style_prompts_def)
  have nonempty: "get_prompt_for_transformation s \<noteq> []" for s
    by (auto simp: get_prompt_for_transformation_def style_prompts_def)
  have other: "s \<notin> {''Ghibli'', ''Minecraft'', ''Chicken-Jockey'', ''Humanize''} \<Longrightarrow>
         get_prompt_for_transformation s = ''Transform this image in a creative way.''" for s
    using known [of s] by (simp add: get_prompt_for_transformation_def)
  show ?thesis
    using nonempty other
    by (simp add: get_prompt_for_transformation_def style_prompts_def)
qed

theorem get_prompt_for_transformation_total_witness:
  "''Cubist'' \<notin> {''Ghibli'', ''Minecraft'', ''Chicken-Jockey'', ''Humanize''}
   \<and> get_prompt_for_transformation ''Cubist'' = ''Transform this image in a creative way.''
   \<and> get_prompt_for_transformation ''Cubist'' \<noteq> []
   \<and> get_prompt_for_transformation ''Humanize'' \<noteq> []"
  using get_prompt_for_transformation_total by simp

text \<open>
  C6. \<open>transform_image_with_openai\<close> sends one request, with the model \<open>gpt-4o\<close>, the
  image, the prompt of the style, the count and the size. When the service answers, the
  result is the URL of each item of the answer in the answer's order, so as long as the
  answer. When the call raises, the result is the empty list, nothing is raised, and
  \<open>st.error\<close> shows the text of the exception after \<open>Error transforming image: \<close>.
\<close>

theorem transform_image_with_openai_result:
  assumes "request = \<lparr>req_model = ''gpt-4o'', req_image = image_data,
                       req_prompt = get_prompt_for_transformation style,
                       req_n = num_images, req_size = image_size\<rparr>"
  shows "(\<forall>data. client api_key request = Inr data \<longrightarrow>
            transform_image_with_openai client api_key image_data style num_images image_size
              = (map url data, [ImagesEdit api_key request])
            \<and> length (fst (transform_image_with_openai client api_key image_data style
                              num_images image_size)) = length data)
         \<and> (\<forall>e. client api_key request = Inl e \<longrightarrow>
            transform_image_with_openai client api_key image_data style num_images image_size
              = ([], [ImagesEdit api_key request, StError (''Error transforming image: '' @ e)]))"
  using assms by (simp add: transform_image_with_openai_def)

theorem transform_image_with_openai_result_witness:
  "client1 ''sk-1'' \<lparr>req_model = ''gpt-4o'', req_image = ''img'',
       req_prompt = get_prompt_for_transformation ''Ghibli'', req_n = 4,
       req_size = ''1024x1024''\<rparr> =
     Inr [\<lparr>url = ''u1''\<rparr>, \<lparr>url = ''u2''\<rparr>, \<lparr>url = ''u3''\<rparr>, \<lparr>url = ''u4''\<rparr>]
   \<and> fst (transform_image_with_openai client1 ''sk-1'' ''img'' ''Ghibli'' 4 ''1024x1024'') =
       [''u1'', ''u2'', ''u3'', ''u4'']
   \<and> client1 ''sk-2'' \<lparr>req_model = ''gpt-4o'', req_image = ''img'',
       req_prompt = get_prompt_for_transformation ''Ghibli'', req_n = 4,
       req_size = ''1024x1024''\<rparr> = Inl ''Incorrect API key provided''
   \<and> fst (transform_image_with_openai client1 ''sk-2'' ''img'' ''Ghibli'' 4 ''1024x1024'') = []
   \<and> StError ''Error transforming image: Incorrect API key provided''
       \<in> set (snd (transform_image_with_openai client1 ''sk-2'' ''img'' ''Ghibli'' 4 ''1024x1024''))"
proof -
  let ?request = "\<lparr>req_model = ''gpt-4o'', req_image = ''img'',
       req_prompt = get_prompt_for_transformation ''Ghibli'', req_n = 4,
       req_size = ''1024x1024''\<rparr>"
  have good: "client1 ''sk-1'' ?request =
      Inr [\<lparr>url = ''u1''\<rparr>, \<lparr>url = ''u2''\<rparr>, \<lparr>url = ''u3''\<rparr>, \<lparr>url = ''u4''\<rparr>]"
    by (simp add: client1_def)
  have bad: "client1 ''sk-2'' ?request = Inl ''Incorrect API key provided''"
    by (simp add: client1_def)
  show ?thesis
    using good bad
      transform_image_with_openai_result [OF refl, of client1 "''sk-1''" "''img''" "''Ghibli''" 4 "''1024x1024''"]
      transform_image_with_openai_result [OF refl, of client1 "''sk-2''" "''img''" "''Ghibli''" 4 "''1024x1024''"]
    by simp
qed

section \<open>Claims about packaging and the page\<close>

text \<open>
  C7. When each fetch of the loop returns a reply, the archive holds, in order, one entry
  for each URL whose reply has status 200, named by the lower-cased style,
  \<open>_transform_\<close>, the position of the URL in the whole list counted from 1, and
  \<open>.png\<close>; a URL whose reply has another status gets an \<open>st.error\<close> with its position
  and status and no entry, and the loop goes on to the next URL. Positions are those of
  the list handed in: a skipped item does not renumber the later ones.
\<close>

theorem package_skips_failed_fetches:
  assumes "\<forall>u \<in> set urls. get u = Inr (reply u)"
  shows "snd (package get style 0 urls) =
           Inr (map (\<lambda>(j, u). (lower style @ ''_transform_'' @ str_nat (j + 1) @ ''.png'',
                                content (reply u)))
                  (filter (\<lambda>(j, u). status_code (reply u) = 200) (enumerate 0 urls)))
         \<and> fst (package get style 0 urls) =
           concat (map (\<lambda>(j, u). if status_code (reply u) = 200 then [HttpGet u]
                                  else [HttpGet u, StError (fetch_failed j (status_code (reply u)))])
                     (enumerate 0 urls))"
  by (simp add: package_replies [OF assms] entry_name_def)

theorem package_skips_failed_fetches_witness:
  "host1 ''u1'' = Inr (reply1 ''u1'')
   \<and> host1 ''u2'' = Inr (reply1 ''u2'')
   \<and> host1 ''u3'' = Inr (reply1 ''u3'')
   \<and> status_code (reply1 ''u1'') = 200
   \<and> status_code (reply1 ''u2'') = 404
   \<and> status_code (reply1 ''u3'') = 200
   \<and> snd (package host1 ''Ghibli'' 0 [''u1'', ''u2'', ''u3'']) =
       Inr [(''ghibli_transform_1.png'', ''png of u1''), (''ghibli_transform_3.png'', ''png of u3'')]
   \<and> fst (package host1 ''Ghibli'' 0 [''u1'', ''u2'', ''u3'']) =
       [HttpGet ''u1'', HttpGet ''u2'', StError ''Failed to fetch image 2. Error code: 404'',
        HttpGet ''u3'']"
proof -
  have h: "\<forall>u \<in> set [''u1'', ''u2'', ''u3'']. host1 u = Inr (reply1 u)"
    by (simp add: host1_def)
  show ?thesis
    using h package_skips_failed_fetches [OF h, of "''Ghibli''"]
    by (simp add: reply1_def lower_def lower_char_def fetch_failed_def str_int_def)
qed




text \<open>
  C9. A submission with no uploaded image, or with an empty API key, shows exactly one
  warning (for the image when it is missing, else for the key), leaves the session state
  as it was, and makes no call to the transformation service and no fetch.
\<close>

theorem main_page_validation:
  assumes "submitted" and "uploaded_file = None \<or> api_key = []"
  shows "main_page client get submitted api_key style num_images image_size uploaded_file ss =
           ([StWarning (if uploaded_file = None then ''Please upload an image to transform.''
                        else ''Please provide your OpenAI API key.'')], ss)
         \<and> (\<forall>k r. ImagesEdit k r
                \<notin> set (fst (main_page client get submitted api_key style num_images image_size
                               uploaded_file ss)))
         \<and> (\<forall>u. HttpGet u
                \<notin> set (fst (main_page client get submitted api_key style num_images image_size
                               uploaded_file ss)))"
  using assms by (auto simp: main_page_def)

theorem main_page_validation_witness:
  "main_page client1 host1 True ''sk-1'' ''Ghibli'' 4 ''1024x1024'' None fresh_state =
     ([StWarning ''Please upload an image to transform.''], fresh_state)
   \<and> main_page client1 host1 True [] ''Ghibli'' 4 ''1024x1024'' (Some ''img'') fresh_state =
     ([StWarning ''Please provide your OpenAI API key.''], fresh_state)
   \<and> main_page client1 host1 True [] ''Ghibli'' 4 ''1024x1024'' None fresh_state =
     ([StWarning ''Please upload an image to transform.''], fresh_state)"
  using main_page_validation [of True None "''sk-1''" client1 host1 "''Ghibli''" 4 "''1024x1024''" fresh_state]
    main_page_validation [of True "Some ''img''" "[]" client1 host1 "''Ghibli''" 4 "''1024x1024''" fresh_state]
    main_page_validation [of True None "[]" client1 host1 "''Ghibli''" 4 "''1024x1024''" fresh_state]
  by simp

end
